theory Spec2Isabelle
  imports Complex_Main "HOL-Library.AList"
begin

section \<open>JavaScript values\<close>

text \<open>
  The cells of a parsed row are JavaScript numbers, strings or \<^verbatim>\<open>undefined\<close>.
  A number is modelled by the value it denotes: \<open>NaN\<close>, the two infinities, or a
  rational. The rounding of a finite value to binary64 is left out (every finite value is
  kept exact), and the two zeros are one value, as they are for the \<^verbatim>\<open>Set\<close> the
  task-type heuristic builds. Equality of \<open>number\<close> is therefore the SameValueZero
  comparison of \<^verbatim>\<open>Set\<close>: \<open>NaN\<close> equals itself.

  A string is a list of code units; \<open>char\<close> covers the code units up to 255.
\<close>

datatype number = NaN | Finite rat | PosInf | NegInf

datatype jsval = JUndefined | JNumber number | JString string

text \<open>
  An object with string keys (\<^verbatim>\<open>Record<string, any>\<close>) is an association list in the
  order the keys were created. Assignment \<^verbatim>\<open>obj[k] = v\<close> and the spread
  \<^verbatim>\<open>{...obj, [k]: v}\<close> are \<^const>\<open>AList.update\<close>: the value of an existing key is
  replaced in place, a new key is appended. Reading \<^verbatim>\<open>obj[k]\<close> is \<^const>\<open>map_of\<close>,
  with \<open>None\<close> for \<^verbatim>\<open>undefined\<close>. Only own properties are modelled, and the list
  keeps the order of creation also where JavaScript would enumerate a key that is an
  array index before the others.
\<close>

type_synonym row = "(string \<times> jsval) list"

definition isNaN :: "number \<Rightarrow> bool" where
  "isNaN x = (x = NaN)"

definition typeof_number :: "jsval \<Rightarrow> bool" where
  "typeof_number v = (case v of JNumber _ \<Rightarrow> True | _ \<Rightarrow> False)"

text \<open>\<^verbatim>\<open>row[key]\<close>: the value of a key the row does not have is \<^verbatim>\<open>undefined\<close>.\<close>

definition get_prop :: "row \<Rightarrow> string \<Rightarrow> jsval" where
  "get_prop r k = (case map_of r k of None \<Rightarrow> JUndefined | Some v \<Rightarrow> v)"

section \<open>String primitives\<close>

text \<open>
  \<^verbatim>\<open>String.prototype.trim\<close> removes white space and line terminators from both ends.
  Among the code units up to 255 these are TAB, LF, VT, FF, CR, SPACE and NBSP.
\<close>

definition isWhiteSpace :: "char \<Rightarrow> bool" where
  "isWhiteSpace c = (of_char c \<in> {9, 10, 11, 12, 13, 32, 160 :: nat})"

definition trim :: "string \<Rightarrow> string" where
  "trim s = rev (dropWhile isWhiteSpace (rev (dropWhile isWhiteSpace s)))"

text \<open>
  \<^verbatim>\<open>s.split(sep)\<close> for a separator of one code unit: the pieces between the
  separators, always at least one piece.
\<close>

fun split :: "char \<Rightarrow> string \<Rightarrow> string list" where
  "split sep [] = [[]]"
| "split sep (c # cs) =
     (if c = sep then [] # split sep cs
      else (case split sep cs of
              [] \<Rightarrow> [[c]]
            | p # ps \<Rightarrow> (c # p) # ps))"

section \<open>The conversion \<^verbatim>\<open>Number(string)\<close>\<close>

text \<open>
  ECMAScript's StringToNumber: the trimmed text is empty (the number 0), or a
  StrNumericLiteral (an optionally signed decimal literal or \<^verbatim>\<open>Infinity\<close>, or an unsigned
  binary, octal or hexadecimal integer), or else the result is \<open>NaN\<close>.
\<close>

definition digit_of :: "char \<Rightarrow> nat option" where
  "digit_of c =
     (let n = (of_char c :: nat) in
      if 48 \<le> n \<and> n \<le> 57 then Some (n - 48)
      else if 97 \<le> n \<and> n \<le> 102 then Some (n - 87)
      else if 65 \<le> n \<and> n \<le> 70 then Some (n - 55)
      else None)"

definition is_digit :: "nat \<Rightarrow> char \<Rightarrow> bool" where
  "is_digit base c = (case digit_of c of None \<Rightarrow> False | Some d \<Rightarrow> d < base)"

definition digits_value :: "nat \<Rightarrow> string \<Rightarrow> nat" where
  "digits_value base ds = foldl (\<lambda>acc c. acc * base + (case digit_of c of None \<Rightarrow> 0 | Some d \<Rightarrow> d)) 0 ds"

definition pow10 :: "int \<Rightarrow> rat" where
  "pow10 e = (if 0 \<le> e then 10 ^ nat e else 1 / 10 ^ nat (- e))"

text \<open>ExponentPart: \<^verbatim>\<open>e\<close> or \<^verbatim>\<open>E\<close>, an optional sign, at least one decimal digit.\<close>

definition exponent_part :: "string \<Rightarrow> int option" where
  "exponent_part s =
     (case s of
        [] \<Rightarrow> Some 0
      | c # r \<Rightarrow>
          if c = CHR ''e'' \<or> c = CHR ''E'' then
            (let (neg, ds) =
                   (case r of
                      [] \<Rightarrow> (False, r)
                    | d # r' \<Rightarrow>
                        if d = CHR ''-'' then (True, r')
                        else if d = CHR ''+'' then (False, r')
                        else (False, r))
             in if ds \<noteq> [] \<and> list_all (is_digit 10) ds
                then Some (if neg then - int (digits_value 10 ds) else int (digits_value 10 ds))
                else None)
          else None)"

text \<open>StrUnsignedDecimalLiteral.\<close>

definition unsigned_decimal :: "string \<Rightarrow> number option" where
  "unsigned_decimal s =
     (if s = ''Infinity'' then Some PosInf
      else
        (let ip = takeWhile (is_digit 10) s;
             r1 = dropWhile (is_digit 10) s;
             dot = (r1 \<noteq> [] \<and> hd r1 = CHR ''.'');
             fp = (if dot then takeWhile (is_digit 10) (tl r1) else []);
             r2 = (if dot then dropWhile (is_digit 10) (tl r1) else r1)
         in if ip = [] \<and> fp = [] then None
            else
              (case exponent_part r2 of
                 None \<Rightarrow> None
               | Some e \<Rightarrow>
                   Some (Finite ((of_nat (digits_value 10 ip)
                                  + of_nat (digits_value 10 fp) / 10 ^ length fp)
                                 * pow10 e)))))"

definition negate :: "number \<Rightarrow> number" where
  "negate x = (case x of NaN \<Rightarrow> NaN | Finite q \<Rightarrow> Finite (- q) | PosInf \<Rightarrow> NegInf | NegInf \<Rightarrow> PosInf)"

text \<open>NonDecimalIntegerLiteral: a prefix \<^verbatim>\<open>0b\<close>, \<^verbatim>\<open>0o\<close> or \<^verbatim>\<open>0x\<close> in either case.\<close>

definition non_decimal :: "string \<Rightarrow> number option" where
  "non_decimal s =
     (case s of
        z # p # ds \<Rightarrow>
          (let base = (if p = CHR ''b'' \<or> p = CHR ''B'' then 2
                       else if p = CHR ''o'' \<or> p = CHR ''O'' then 8
                       else if p = CHR ''x'' \<or> p = CHR ''X'' then 16
                       else (0::nat))
           in if z = CHR ''0'' \<and> base \<noteq> 0 \<and> ds \<noteq> [] \<and> list_all (is_digit base) ds
              then Some (Finite (of_nat (digits_value base ds)))
              else None)
      | _ \<Rightarrow> None)"

definition str_numeric_literal :: "string \<Rightarrow> number option" where
  "str_numeric_literal s =
     (case non_decimal s of
        Some v \<Rightarrow> Some v
      | None \<Rightarrow>
          (case s of
             [] \<Rightarrow> None
           | c # r \<Rightarrow>
               if c = CHR ''+'' then unsigned_decimal r
               else if c = CHR ''-'' then map_option negate (unsigned_decimal r)
               else unsigned_decimal s))"

definition Number :: "string \<Rightarrow> number" where
  "Number s =
     (let t = trim s in
      if t = [] then Finite 0
      else (case str_numeric_literal t of None \<Rightarrow> NaN | Some v \<Rightarrow> v))"

text \<open>\<^verbatim>\<open>Number(undefined)\<close> is \<open>NaN\<close>.\<close>

definition Number_opt :: "string option \<Rightarrow> number" where
  "Number_opt v = (case v of None \<Rightarrow> NaN | Some s \<Rightarrow> Number s)"

section \<open>The CSV parser of \<^verbatim>\<open>lib/utils\<close>\<close>

text \<open>\<^verbatim>\<open>values[i]\<close>: \<open>None\<close> is \<^verbatim>\<open>undefined\<close>, the read past the end of the array.\<close>

definition nth_opt :: "'a list \<Rightarrow> nat \<Rightarrow> 'a option" where
  "nth_opt xs i = (if i < length xs then Some (xs ! i) else None)"

text \<open>The split of the text into lines and of a line into trimmed cells.\<close>

definition csv_lines :: "string \<Rightarrow> string list" where
  "csv_lines csvString = split CHR 0x0A (trim csvString)"

definition csv_cells :: "string \<Rightarrow> string list" where
  "csv_cells line = map trim (split CHR '','' line)"

text \<open>\<^verbatim>\<open>rows[0]\<close>: the split always returns a first piece (lemma \<open>split_nonempty\<close>).\<close>

definition csv_headers :: "string \<Rightarrow> string list" where
  "csv_headers csvString = csv_cells (hd (csv_lines csvString))"

text \<open>\<^verbatim>\<open>rows.slice(1)\<close>: the lines after the header line.\<close>

definition csv_body :: "string \<Rightarrow> string list" where
  "csv_body csvString = tl (csv_lines csvString)"

text \<open>
  The body of \<^verbatim>\<open>headers.forEach((header, i) => ...)\<close> in \<^verbatim>\<open>parseCSV\<close>: a header
  with no value in the row is skipped; otherwise the value is stored as a number when
  \<^verbatim>\<open>Number\<close> accepts it and as the trimmed text when not (\<open>coerce\<close>, the two
  lines after the comment "Try to convert to number if possible").
\<close>

definition coerce :: "string \<Rightarrow> jsval" where
  "coerce v = (let numValue = Number v in if isNaN numValue then JString v else JNumber numValue)"

text \<open>
  The assignment \<^verbatim>\<open>rowData[header] = v\<close> of a number, a string or \<^verbatim>\<open>undefined\<close>.
  For the key \<^verbatim>\<open>__proto__\<close> the assignment reaches the setter that every object
  inherits, which ignores a value that is not an object: no field is stored. Every other
  key becomes a field of the object itself.
\<close>

definition set_field :: "string \<Rightarrow> jsval \<Rightarrow> row \<Rightarrow> row" where
  "set_field k v obj = (if k = ''__proto__'' then obj else AList.update k v obj)"

definition parse_cell :: "string list \<Rightarrow> row \<Rightarrow> string \<times> nat \<Rightarrow> row" where
  "parse_cell vals rowData hi =
     (case nth_opt vals (snd hi) of
        None \<Rightarrow> rowData
      | Some v \<Rightarrow> set_field (fst hi) (coerce v) rowData)"

text \<open>The callback of \<^verbatim>\<open>rows.slice(1).map((row, idx) => ...)\<close>.\<close>

definition parse_row :: "string list \<Rightarrow> string \<Rightarrow> nat \<Rightarrow> row" where
  "parse_row headers line idx =
     foldl (parse_cell (csv_cells line))
       [(''id'', JNumber (Finite (of_nat idx)))]
       (zip headers [0 ..< length headers])"

definition parseCSV :: "string \<Rightarrow> row list" where
  "parseCSV csvString =
     map (\<lambda>(line, idx). parse_row (csv_headers csvString) line idx)
       (zip (csv_body csvString) [0 ..< length (csv_body csvString)])"

section \<open>Task-type inference (\<^verbatim>\<open>determineTaskType\<close>)\<close>

datatype TaskType = classification | regression

text \<open>\<^verbatim>\<open>Set.prototype.add\<close>: a value already in the set is not added again.\<close>

definition set_add :: "'a \<Rightarrow> 'a list \<Rightarrow> 'a list" where
  "set_add v u = (if v \<in> set u then u else u @ [v])"

text \<open>
  The body of \<^verbatim>\<open>data.forEach(row => ...)\<close>, on the pair of \<^verbatim>\<open>uniqueValues\<close> and
  \<^verbatim>\<open>numericCount\<close>.
\<close>

definition scan_row :: "string \<Rightarrow> jsval list \<times> nat \<Rightarrow> row \<Rightarrow> jsval list \<times> nat" where
  "scan_row targetName acc r =
     (let v = get_prop r targetName
      in (set_add v (fst acc), if typeof_number v then snd acc + 1 else snd acc))"

text \<open>
  The result \<open>None\<close> is \<^verbatim>\<open>null\<close>; the argument \<open>None\<close> is a \<^verbatim>\<open>null\<close> data set.
  The two quotients are compared as rationals: for counts below \<open>2^32\<close> (the bound
  on the length of an array) the binary64 quotient lies on the same side of the binary64
  constants \<^verbatim>\<open>0.05\<close> and \<^verbatim>\<open>0.9\<close> as the exact quotient lies of 1/20 and 9/10.
\<close>

definition determineTaskType :: "string \<Rightarrow> row list option \<Rightarrow> TaskType option" where
  "determineTaskType targetName dataset =
     (case dataset of
        None \<Rightarrow> None
      | Some rows \<Rightarrow>
          if length rows = 0 \<or> targetName = [] then None
          else
            (let (uniqueValues, numericCount) = foldl (scan_row targetName) ([], 0) rows
             in if length uniqueValues \<le> 10
                   \<or> (of_nat (length uniqueValues) / of_nat (length rows) :: rat) < 5 / 100
                then Some classification
                else if (of_nat numericCount / of_nat (length rows) :: rat) > 9 / 10
                then Some regression
                else Some classification))"

section \<open>The page component (\<^verbatim>\<open>pages/Index.tsx\<close>)\<close>

datatype WorkflowStep = upload | select | train | evaluate | predict

datatype ModelType =
  linear_regression | decision_tree | random_forest | xgboost | logistic_regression

type_synonym ModelParams = "(string \<times> number) list"

text \<open>The catalog \<^verbatim>\<open>defaultModelParams\<close> of \<^verbatim>\<open>components/ModelSelection.tsx\<close>.\<close>

fun defaultModelParams :: "ModelType \<Rightarrow> ModelParams" where
  "defaultModelParams linear_regression = []"
| "defaultModelParams logistic_regression = []"
| "defaultModelParams decision_tree =
     [(''max_depth'', Finite 5), (''min_samples_split'', Finite 2)]"
| "defaultModelParams random_forest =
     [(''n_estimators'', Finite 100), (''max_depth'', Finite 5), (''min_samples_split'', Finite 2)]"
| "defaultModelParams xgboost =
     [(''n_estimators'', Finite 100), (''learning_rate'', Finite (1 / 10)), (''max_depth'', Finite 5)]"

text \<open>
  An entry of \<^verbatim>\<open>trainedModel\<close>: \<^verbatim>\<open>{ type, params }\<close>, where \<^verbatim>\<open>params\<close> is
  \<^verbatim>\<open>multiModelParams[modelType]\<close> and so \<^verbatim>\<open>undefined\<close> (\<open>None\<close>) for a kind that
  has no parameters recorded.
\<close>

datatype trained = Trained (trained_type: ModelType) (trained_params: "ModelParams option")

text \<open>What a file reader hands to \<^verbatim>\<open>onFileUploaded\<close>: \<^verbatim>\<open>string | ArrayBuffer\<close>.\<close>

datatype file_content = StringContent string | ArrayBufferContent "nat list"

text \<open>
  The state variables of the component, one field per \<^verbatim>\<open>useState\<close>. The type
  parameter stands for the values typed \<^verbatim>\<open>any\<close> (a training result, the metrics, an
  entry of the feature importances and of the predictions). \<^verbatim>\<open>selectedModel\<close> and
  \<^verbatim>\<open>modelParams\<close> belong to the single-model handlers, which the page does not render
  and which are not modelled. An unset target is the empty string, as in the source.

  Every handler is a function from the state of the render it was created in to the next
  state: the state updates it requests are applied together.
\<close>

record 'a index_state =
  currentStep :: WorkflowStep
  data :: "row list option"
  selectedFeatures :: "string list"
  selectedTarget :: string
  taskType :: "TaskType option"
  trainedModel :: "(ModelType \<times> trained) list option"
  modelMetrics :: "'a option"
  featureImportance :: "'a list"
  predictions :: "'a list"
  selectedModels :: "ModelType list"
  modelResults :: "(ModelType \<times> 'a) list"
  multiModelParams :: "(ModelType \<times> ModelParams) list"

definition initial_state :: "'a index_state" where
  "initial_state =
     \<lparr> currentStep = upload, data = None, selectedFeatures = [], selectedTarget = [],
       taskType = None, trainedModel = None, modelMetrics = None, featureImportance = [],
       predictions = [], selectedModels = [], modelResults = [], multiModelParams = [] \<rparr>"

text \<open>
  \<^verbatim>\<open>navigateToStep\<close>. A string is truthy when it is not empty; \<^verbatim>\<open>data\<close> and
  \<^verbatim>\<open>trainedModel\<close> are truthy when they are not \<^verbatim>\<open>null\<close>.
\<close>

definition navigateToStep :: "WorkflowStep \<Rightarrow> 'a index_state \<Rightarrow> 'a index_state" where
  "navigateToStep step st =
     (if step = upload
         \<or> (step = select \<and> data st \<noteq> None)
         \<or> (step = train \<and> length (selectedFeatures st) > 0 \<and> selectedTarget st \<noteq> [])
         \<or> (step = evaluate \<and> trainedModel st \<noteq> None)
         \<or> (step = predict \<and> trainedModel st \<noteq> None)
      then st\<lparr>currentStep := step\<rparr>
      else st)"

text \<open>\<^verbatim>\<open>handleFileUploaded\<close> of the page: only text content is parsed and stored.\<close>

definition handleFileUploaded :: "file_content \<Rightarrow> 'a index_state \<Rightarrow> 'a index_state" where
  "handleFileUploaded content st =
     (case content of
        StringContent s \<Rightarrow>
          st\<lparr>data := Some (parseCSV s), selectedFeatures := [], selectedTarget := [],
             taskType := None\<rparr>
      | ArrayBufferContent _ \<Rightarrow> st)"

definition handleFeaturesSelected :: "string list \<Rightarrow> 'a index_state \<Rightarrow> 'a index_state" where
  "handleFeaturesSelected features st = st\<lparr>selectedFeatures := features\<rparr>"

definition handleTargetSelected :: "string \<Rightarrow> 'a index_state \<Rightarrow> 'a index_state" where
  "handleTargetSelected target st =
     (if target \<noteq> [] \<and> data st \<noteq> None
      then st\<lparr>selectedTarget := target, taskType := determineTaskType target (data st)\<rparr>
      else st\<lparr>selectedTarget := target\<rparr>)"

text \<open>
  \<^verbatim>\<open>handleModelsSelect\<close>: the \<^verbatim>\<open>forEach\<close> fills \<^verbatim>\<open>initialParams\<close> from the catalog
  (every kind has an entry there, so the \<^verbatim>\<open>|| {}\<close> alternative is never taken).
\<close>

definition handleModelsSelect :: "ModelType list \<Rightarrow> 'a index_state \<Rightarrow> 'a index_state" where
  "handleModelsSelect models st =
     st\<lparr>selectedModels := models,
        multiModelParams :=
          foldl (\<lambda>initialParams model. AList.update model (defaultModelParams model) initialParams)
            [] models\<rparr>"

text \<open>
  \<^verbatim>\<open>handleTrainingCompleteMulti\<close>. \<^verbatim>\<open>Object.keys(modelResults).length\<close> is read from the
  state of the render, before the result just reported is stored; the spread of a
  \<^verbatim>\<open>null\<close> \<^verbatim>\<open>trainedModel\<close> is the empty object.
\<close>

definition handleTrainingCompleteMulti ::
    "'a \<Rightarrow> ModelType \<Rightarrow> 'a index_state \<Rightarrow> 'a index_state" where
  "handleTrainingCompleteMulti modelInfo modelType st =
     (let st' = st\<lparr>modelResults := AList.update modelType modelInfo (modelResults st),
                    trainedModel :=
                      Some (AList.update modelType
                              (Trained modelType (map_of (multiModelParams st) modelType))
                              (case trainedModel st of None \<Rightarrow> [] | Some prev \<Rightarrow> prev))\<rparr>;
          completedModels = length (modelResults st) + 1
      in if completedModels = length (selectedModels st)
         then st'\<lparr>currentStep := evaluate\<rparr>
         else st')"

section \<open>The column selector (\<^verbatim>\<open>components/DataTable.tsx\<close>)\<close>

text \<open>
  The properties the two click handlers read. A callback is a transformer of the state of
  the component that owns the table; an absent callback is \<open>None\<close>.
\<close>

record 's table_props =
  prop_selectedFeatures :: "string list"
  prop_selectedTarget :: string
  onSelectFeatures :: "(string list \<Rightarrow> 's \<Rightarrow> 's) option"
  onSelectTarget :: "(string \<Rightarrow> 's \<Rightarrow> 's) option"

definition handleFeatureClick :: "'s table_props \<Rightarrow> string \<Rightarrow> 's \<Rightarrow> 's" where
  "handleFeatureClick props column st =
     (case onSelectFeatures props of
        None \<Rightarrow> st
      | Some select_features \<Rightarrow>
          if column = prop_selectedTarget props then st
          else if column \<in> set (prop_selectedFeatures props)
          then select_features (filter (\<lambda>f. f \<noteq> column) (prop_selectedFeatures props)) st
          else select_features (prop_selectedFeatures props @ [column]) st)"

definition handleTargetClick :: "'s table_props \<Rightarrow> string \<Rightarrow> 's \<Rightarrow> 's" where
  "handleTargetClick props column st =
     (case onSelectTarget props of
        None \<Rightarrow> st
      | Some select_target \<Rightarrow>
          if column = prop_selectedTarget props then select_target [] st
          else
            (let st1 =
                   (case onSelectFeatures props of
                      None \<Rightarrow> st
                    | Some select_features \<Rightarrow>
                        if column \<in> set (prop_selectedFeatures props)
                        then select_features
                               (filter (\<lambda>f. f \<noteq> column) (prop_selectedFeatures props)) st
                        else st)
             in select_target column st1))"

text \<open>The table of the select step, as the page renders it.\<close>

definition select_step_props :: "'a index_state \<Rightarrow> 'a index_state table_props" where
  "select_step_props st =
     \<lparr> prop_selectedFeatures = selectedFeatures st,
       prop_selectedTarget = selectedTarget st,
       onSelectFeatures = Some handleFeaturesSelected,
       onSelectTarget = Some handleTargetSelected \<rparr>"

definition toggleFeature :: "string \<Rightarrow> 'a index_state \<Rightarrow> 'a index_state" where
  "toggleFeature column st = handleFeatureClick (select_step_props st) column st"

definition setTarget :: "string \<Rightarrow> 'a index_state \<Rightarrow> 'a index_state" where
  "setTarget column st = handleTargetClick (select_step_props st) column st"

section \<open>The prediction runner (\<^verbatim>\<open>components/PredictData.tsx\<close>)\<close>

text \<open>
  The component's own reading of the test file. Unlike \<^verbatim>\<open>parseCSV\<close> it does not skip a
  header that has no value: \<^verbatim>\<open>Number(undefined)\<close> is \<open>NaN\<close>, so the header is stored
  with the value \<^verbatim>\<open>undefined\<close>.
\<close>

definition test_cell :: "string list \<Rightarrow> row \<Rightarrow> string \<times> nat \<Rightarrow> row" where
  "test_cell vals r hi =
     (let v = nth_opt vals (snd hi);
          numValue = Number_opt v
      in set_field (fst hi)
           (if isNaN numValue then (case v of None \<Rightarrow> JUndefined | Some s \<Rightarrow> JString s)
            else JNumber numValue) r)"

definition test_row :: "string list \<Rightarrow> string \<Rightarrow> nat \<Rightarrow> row" where
  "test_row headers line idx =
     foldl (test_cell (csv_cells line))
       [(''id'', JNumber (Finite (of_nat idx)))]
       (zip headers [0 ..< length headers])"

definition parse_test_data :: "file_content \<Rightarrow> row list" where
  "parse_test_data content =
     (case content of
        StringContent s \<Rightarrow>
          map (\<lambda>(line, idx). test_row (csv_headers s) line idx)
            (zip (csv_body s) [0 ..< length (csv_body s)])
      | ArrayBufferContent _ \<Rightarrow>
          [[(''id'', JNumber (Finite 0)),
            (''error'', JString ''Excel parsing not implemented in this demo'')]])"















section \<open>Notions used to state the properties\<close>

text \<open>The selection invariant: a target that is set is not among the features.\<close>

definition target_not_feature :: "'a index_state \<Rightarrow> bool" where
  "target_not_feature st =
     (selectedTarget st = [] \<or> selectedTarget st \<notin> set (selectedFeatures st))"


section \<open>Properties of the string primitives and of the row parser\<close>

lemma split_nonempty: "split sep s \<noteq> []"
  by (induction s) (auto split: list.splits)

lemma parse_cell_eq:
  "parse_cell vals r (h, i) =
     (if i < length vals \<and> h \<noteq> ''__proto__'' then AList.update h (coerce (vals ! i)) r else r)"
  by (simp add: parse_cell_def nth_opt_def set_field_def)

lemma foldl_parse_cell_keys:
  "fst ` set (foldl (parse_cell vals) r his) =
     fst ` set r \<union> {h. h \<noteq> ''__proto__'' \<and> (\<exists>i. (h, i) \<in> set his \<and> i < length vals)}"
proof (induction his arbitrary: r)
  case Nil
  then show ?case by simp
next
  case (Cons hi his)
  obtain h i where hi: "hi = (h, i)" by (cases hi)
  show ?case
    unfolding foldl_Cons Cons.IH hi parse_cell_eq
    by (auto simp: dom_update)
qed

lemma foldl_parse_cell_other:
  "k = ''__proto__'' \<or> (\<forall>i. (k, i) \<in> set his \<longrightarrow> length vals \<le> i) \<Longrightarrow>
   map_of (foldl (parse_cell vals) r his) k = map_of r k"
proof (induction his arbitrary: r)
  case Nil
  then show ?case by simp
next
  case (Cons hi his)
  obtain h i where hi: "hi = (h, i)" by (cases hi)
  have "map_of (parse_cell vals r hi) k = map_of r k"
    using Cons.prems unfolding hi parse_cell_eq by (auto simp: update_conv')
  moreover have "k = ''__proto__'' \<or> (\<forall>i. (k, i) \<in> set his \<longrightarrow> length vals \<le> i)"
    using Cons.prems by auto
  ultimately show ?case using Cons.IH by simp
qed

lemma foldl_parse_cell_last:
  assumes "i < length vals" and "h \<noteq> ''__proto__''"
      and "\<forall>j. (h, j) \<in> set post \<longrightarrow> length vals \<le> j"
  shows "map_of (foldl (parse_cell vals) r (pre @ (h, i) # post)) h = Some (coerce (vals ! i))"
proof -
  have "map_of (foldl (parse_cell vals) r (pre @ (h, i) # post)) h
        = map_of (parse_cell vals (foldl (parse_cell vals) r pre) (h, i)) h"
    using assms(3) by (simp add: foldl_parse_cell_other)
  also have "\<dots> = Some (coerce (vals ! i))"
    using assms(1,2) by (simp add: parse_cell_eq update_conv')
  finally show ?thesis .
qed

text \<open>The columns after column \<open>i\<close> in the list the \<^verbatim>\<open>forEach\<close> walks through.\<close>

lemma zip_upt_decompose:
  assumes "i < length hs"
  shows "\<exists>pre post. zip hs [0 ..< length hs] = pre @ (hs ! i, i) # post
           \<and> (\<forall>h j. (h, j) \<in> set post \<longrightarrow> i < j \<and> j < length hs \<and> h = hs ! j)"
proof -
  let ?zs = "zip hs [0 ..< length hs]"
  have nth: "\<And>j. j < length hs \<Longrightarrow> ?zs ! j = (hs ! j, j)" by simp
  have "i < length ?zs" using assms by simp
  then have "?zs = take i ?zs @ ?zs ! i # drop (Suc i) ?zs"
    by (rule id_take_nth_drop)
  then have dec: "?zs = take i ?zs @ (hs ! i, i) # drop (Suc i) ?zs"
    unfolding nth[OF assms] .
  have "\<forall>h j. (h, j) \<in> set (drop (Suc i) ?zs) \<longrightarrow> i < j \<and> j < length hs \<and> h = hs ! j"
  proof (intro allI impI)
    fix h j assume "(h, j) \<in> set (drop (Suc i) ?zs)"
    then obtain k where k: "k < length (drop (Suc i) ?zs)" "drop (Suc i) ?zs ! k = (h, j)"
      by (auto simp: in_set_conv_nth)
    from k(1) have lt: "Suc i + k < length hs" by simp
    from k(2) lt have "h = hs ! (Suc i + k)" "j = Suc i + k" by auto
    with lt show "i < j \<and> j < length hs \<and> h = hs ! j" by simp
  qed
  with dec show ?thesis by blast
qed

lemma zip_upt_set:
  "(h, j) \<in> set (zip hs [0 ..< length hs]) \<longleftrightarrow> j < length hs \<and> hs ! j = h"
  by (auto simp: set_zip)

lemma take_set_nth:
  "{h. \<exists>i. (i < length hs \<and> hs ! i = h) \<and> i < n} = set (take n hs)"
proof -
  have "h \<in> set (take n hs) \<longleftrightarrow> (\<exists>i. (i < length hs \<and> hs ! i = h) \<and> i < n)" for h
  proof
    assume "h \<in> set (take n hs)"
    then obtain i where "i < length (take n hs)" "take n hs ! i = h"
      by (auto simp: in_set_conv_nth)
    then have "(i < length hs \<and> hs ! i = h) \<and> i < n" by simp
    then show "\<exists>i. (i < length hs \<and> hs ! i = h) \<and> i < n" ..
  next
    assume "\<exists>i. (i < length hs \<and> hs ! i = h) \<and> i < n"
    then obtain i where i: "i < length hs" "hs ! i = h" "i < n" by blast
    then have "i < length (take n hs)" "take n hs ! i = h" by simp_all
    then show "h \<in> set (take n hs)" by (auto simp: in_set_conv_nth)
  qed
  then show ?thesis by blast
qed

text \<open>A later column, seen from the headers that have a value in the line.\<close>

lemma later_column_in_drop_take:
  assumes "i < j" and "j < length hs" and "j < n"
  shows "hs ! j \<in> set (drop (Suc i) (take n hs))"
proof -
  from assms have "j - Suc i < length (drop (Suc i) (take n hs))"
    and "drop (Suc i) (take n hs) ! (j - Suc i) = hs ! j"
    by simp_all
  then show ?thesis by (metis nth_mem)
qed

lemma later_column_in_drop:
  assumes "i < j" and "j < length hs"
  shows "hs ! j \<in> set (drop (Suc i) hs)"
  using later_column_in_drop_take[OF assms, of "length hs"] assms by simp

text \<open>
  The fields of a parsed row: \<open>id\<close> and the headers that have a value in the line, but
  for a header \<^verbatim>\<open>__proto__\<close>.
\<close>

lemma parse_row_keys:
  "fst ` set (parse_row hs line idx)
     = insert ''id'' (set (take (length (csv_cells line)) hs) - {''__proto__''})"
proof -
  have "{h. h \<noteq> ''__proto__''
            \<and> (\<exists>i. (h, i) \<in> set (zip hs [0 ..< length hs]) \<and> i < length (csv_cells line))}
        = set (take (length (csv_cells line)) hs) - {''__proto__''}"
    unfolding zip_upt_set using take_set_nth[of hs "length (csv_cells line)"] by auto
  then show ?thesis
    unfolding parse_row_def foldl_parse_cell_keys by simp
qed

lemma parse_row_no_proto: "map_of (parse_row hs line idx) ''__proto__'' = None"
  unfolding parse_row_def by (simp add: foldl_parse_cell_other)

lemma parse_row_id:
  assumes "''id'' \<notin> set (take (length (csv_cells line)) hs)"
  shows "map_of (parse_row hs line idx) ''id'' = Some (JNumber (Finite (of_nat idx)))"
proof -
  have "\<forall>i. (''id'', i) \<in> set (zip hs [0 ..< length hs]) \<longrightarrow> length (csv_cells line) \<le> i"
  proof (intro allI impI)
    fix i assume "(''id'', i) \<in> set (zip hs [0 ..< length hs])"
    then have i: "i < length hs" "hs ! i = ''id''" by (simp_all add: zip_upt_set)
    show "length (csv_cells line) \<le> i"
    proof (rule ccontr)
      assume "\<not> length (csv_cells line) \<le> i"
      with i have "i < length (take (length (csv_cells line)) hs)"
        "take (length (csv_cells line)) hs ! i = ''id''" by simp_all
      then have "''id'' \<in> set (take (length (csv_cells line)) hs)"
        by (metis nth_mem)
      with assms show False by contradiction
    qed
  qed
  then show ?thesis
    unfolding parse_row_def by (simp add: foldl_parse_cell_other)
qed

text \<open>
  The value a column leaves in the row, when no later column of the same name has a value
  in the line.
\<close>

lemma parse_row_cell:
  assumes "i < length hs" and "i < length (csv_cells line)"
      and "hs ! i \<noteq> ''__proto__''"
      and "hs ! i \<notin> set (drop (Suc i) (take (length (csv_cells line)) hs))"
  shows "map_of (parse_row hs line idx) (hs ! i) = Some (coerce (csv_cells line ! i))"
proof -
  obtain pre post where dec: "zip hs [0 ..< length hs] = pre @ (hs ! i, i) # post"
    and post: "\<forall>h j. (h, j) \<in> set post \<longrightarrow> i < j \<and> j < length hs \<and> h = hs ! j"
    using zip_upt_decompose[OF assms(1)] by blast
  have later: "\<forall>j. (hs ! i, j) \<in> set post \<longrightarrow> length (csv_cells line) \<le> j"
  proof (intro allI impI)
    fix j assume "(hs ! i, j) \<in> set post"
    with post have j: "i < j" "j < length hs" "hs ! i = hs ! j" by blast+
    show "length (csv_cells line) \<le> j"
    proof (rule ccontr)
      assume "\<not> length (csv_cells line) \<le> j"
      then have "j < length (csv_cells line)" by simp
      from later_column_in_drop_take[OF j(1,2) this] j(3) assms(4) show False by simp
    qed
  qed
  show ?thesis
    unfolding parse_row_def dec using assms(2,3) later by (rule foldl_parse_cell_last)
qed

lemma parseCSV_length: "length (parseCSV csv) = length (csv_body csv)"
  by (simp add: parseCSV_def)

lemma parseCSV_nth:
  "r < length (csv_body csv) \<Longrightarrow>
   parseCSV csv ! r = parse_row (csv_headers csv) (csv_body csv ! r) r"
  by (simp add: parseCSV_def)

text \<open>The empty cell, and a cell of white space, is the number 0.\<close>

lemma coerce_empty: "coerce [] = JNumber (Finite 0)"
  by (simp add: coerce_def Number_def trim_def isNaN_def)

lemma coerce_number: "coerce v = JNumber x \<Longrightarrow> x \<noteq> NaN"
  by (auto simp: coerce_def isNaN_def Let_def split: if_splits)

text \<open>The reader of the prediction runner stores every header, with or without a value.\<close>

lemma foldl_test_cell_other:
  "k = ''__proto__'' \<or> k \<notin> fst ` set his \<Longrightarrow>
   map_of (foldl (test_cell vals) r his) k = map_of r k"
proof (induction his arbitrary: r)
  case Nil
  then show ?case by simp
next
  case (Cons hi his)
  have "map_of (test_cell vals r hi) k = map_of r k"
    using Cons.prems by (auto simp: test_cell_def set_field_def Let_def update_conv')
  moreover have "k = ''__proto__'' \<or> k \<notin> fst ` set his"
    using Cons.prems by auto
  ultimately show ?case using Cons.IH by simp
qed

lemma test_row_empty_cell:
  assumes "i < length hs" and "i < length (csv_cells line)"
      and "csv_cells line ! i = []"
      and "hs ! i \<noteq> ''__proto__''"
      and "hs ! i \<notin> set (drop (Suc i) hs)"
  shows "map_of (test_row hs line idx) (hs ! i) = Some (JNumber (Finite 0))"
proof -
  obtain pre post where dec: "zip hs [0 ..< length hs] = pre @ (hs ! i, i) # post"
    and post: "\<forall>h j. (h, j) \<in> set post \<longrightarrow> i < j \<and> j < length hs \<and> h = hs ! j"
    using zip_upt_decompose[OF assms(1)] by blast
  have "hs ! i \<notin> fst ` set post"
  proof
    assume "hs ! i \<in> fst ` set post"
    then obtain j where "(hs ! i, j) \<in> set post" by force
    with post have j: "i < j" "j < length hs" "hs ! i = hs ! j" by blast+
    from later_column_in_drop[OF j(1,2)] j(3) assms(5) show False by simp
  qed
  then have "map_of (test_row hs line idx) (hs ! i)
             = map_of (test_cell (csv_cells line)
                 (foldl (test_cell (csv_cells line)) [(''id'', JNumber (Finite (of_nat idx)))] pre)
                 (hs ! i, i)) (hs ! i)"
    unfolding test_row_def dec by (simp add: foldl_test_cell_other)
  also have "\<dots> = Some (JNumber (Finite 0))"
    using assms(2,3,4)
    by (simp add: test_cell_def set_field_def nth_opt_def Number_opt_def Number_def trim_def
        isNaN_def update_conv')
  finally show ?thesis .
qed

lemma parse_test_data_nth:
  "r < length (csv_body csv) \<Longrightarrow>
   parse_test_data (StringContent csv) ! r = test_row (csv_headers csv) (csv_body csv ! r) r"
  by (simp add: parse_test_data_def)

section \<open>The CSV parser: the identifier, missing columns, empty cells\<close>

text \<open>
  Claim C8, as the code has it. For every CSV text and every data row \<open>r\<close> of it (the lines
  after the header line, counted from 0): the parser returns one record per data row and
  raises no error; the fields of the record are \<open>id\<close> and the headers that have a value
  in the row (but for a header \<^verbatim>\<open>__proto__\<close>, under which nothing is stored), so a row
  with fewer values than headers gets no field for a missing trailing column (no padding);
  \<open>id\<close> is the number \<open>r\<close> when no column named \<open>id\<close> has a value in the row; and when
  one has, \<open>id\<close> is the value of that column (of the last such column), coerced like
  every other cell, in place of the row index.
\<close>

theorem parseCSV_row_fields:
  assumes "r < length (csv_body csv)"
  shows "length (parseCSV csv) = length (csv_body csv)
       \<and> fst ` set (parseCSV csv ! r)
           = insert ''id''
               (set (take (length (csv_cells (csv_body csv ! r))) (csv_headers csv))
                  - {''__proto__''})
       \<and> (\<forall>h. h \<noteq> ''id''
              \<and> h \<notin> set (take (length (csv_cells (csv_body csv ! r))) (csv_headers csv))
            \<longrightarrow> map_of (parseCSV csv ! r) h = None)
       \<and> map_of (parseCSV csv ! r) ''__proto__'' = None
       \<and> (''id'' \<notin> set (take (length (csv_cells (csv_body csv ! r))) (csv_headers csv))
            \<longrightarrow> map_of (parseCSV csv ! r) ''id'' = Some (JNumber (Finite (of_nat r))))
       \<and> (\<forall>i. i < length (csv_headers csv) \<and> i < length (csv_cells (csv_body csv ! r))
              \<and> csv_headers csv ! i = ''id''
              \<and> ''id'' \<notin> set (drop (Suc i)
                            (take (length (csv_cells (csv_body csv ! r))) (csv_headers csv)))
            \<longrightarrow> map_of (parseCSV csv ! r) ''id''
                  = Some (coerce (csv_cells (csv_body csv ! r) ! i)))"
proof -
  let ?hs = "csv_headers csv"
  let ?line = "csv_body csv ! r"
  let ?row = "parse_row ?hs ?line r"
  let ?present = "set (take (length (csv_cells ?line)) ?hs)"
  have row: "parseCSV csv ! r = ?row"
    using assms by (rule parseCSV_nth)
  have keys: "fst ` set ?row = insert ''id'' (?present - {''__proto__''})"
    by (rule parse_row_keys)
  have absent: "map_of ?row h = None" if "h \<noteq> ''id''" "h \<notin> ?present" for h
  proof -
    from that keys have "h \<notin> fst ` set ?row" by simp
    then show ?thesis by (simp add: map_of_eq_None_iff)
  qed
  have proto: "map_of ?row ''__proto__'' = None"
    by (rule parse_row_no_proto)
  have ident: "map_of ?row ''id'' = Some (JNumber (Finite (of_nat r)))" if "''id'' \<notin> ?present"
    using that by (rule parse_row_id)
  have column: "map_of ?row ''id'' = Some (coerce (csv_cells ?line ! i))"
    if "i < length ?hs" "i < length (csv_cells ?line)" "?hs ! i = ''id''"
       "''id'' \<notin> set (drop (Suc i) (take (length (csv_cells ?line)) ?hs))" for i
  proof -
    have "?hs ! i \<noteq> ''__proto__''" using that(3) by simp
    moreover have "?hs ! i \<notin> set (drop (Suc i) (take (length (csv_cells ?line)) ?hs))"
      using that(3,4) by simp
    ultimately have "map_of ?row (?hs ! i) = Some (coerce (csv_cells ?line ! i))"
      using that(1,2) by (intro parse_row_cell)
    with that(3) show ?thesis by simp
  qed
  show ?thesis
    unfolding row using keys absent proto ident column by (simp add: parseCSV_length)
qed

text \<open>
  The text \<^verbatim>\<open>a,b\<close>, newline, \<^verbatim>\<open>1\<close>: the one data row has the identifier 0 and no
  field \<open>b\<close>. The text \<^verbatim>\<open>id,x\<close>, newline, \<^verbatim>\<open>7,1\<close>: the identifier of the one data
  row is the value of its column \<open>id\<close>.
\<close>

theorem parseCSV_row_fields_witness:
  "0 < length (csv_body (''a,b'' @ [CHR 0x0A] @ ''1''))
   \<and> ''b'' \<noteq> ''id''
   \<and> ''b'' \<notin> set (take (length (csv_cells (csv_body (''a,b'' @ [CHR 0x0A] @ ''1'') ! 0)))
                  (csv_headers (''a,b'' @ [CHR 0x0A] @ ''1'')))
   \<and> ''id'' \<notin> set (take (length (csv_cells (csv_body (''a,b'' @ [CHR 0x0A] @ ''1'') ! 0)))
                  (csv_headers (''a,b'' @ [CHR 0x0A] @ ''1'')))
   \<and> map_of (parseCSV (''a,b'' @ [CHR 0x0A] @ ''1'') ! 0) ''b'' = None
   \<and> map_of (parseCSV (''a,b'' @ [CHR 0x0A] @ ''1'') ! 0) ''id'' = Some (JNumber (Finite (of_nat 0)))
   \<and> 0 < length (csv_body (''id,x'' @ [CHR 0x0A] @ ''7,1''))
   \<and> 0 < length (csv_headers (''id,x'' @ [CHR 0x0A] @ ''7,1''))
   \<and> 0 < length (csv_cells (csv_body (''id,x'' @ [CHR 0x0A] @ ''7,1'') ! 0))
   \<and> csv_headers (''id,x'' @ [CHR 0x0A] @ ''7,1'') ! 0 = ''id''
   \<and> ''id'' \<notin> set (drop (Suc 0)
                  (take (length (csv_cells (csv_body (''id,x'' @ [CHR 0x0A] @ ''7,1'') ! 0)))
                     (csv_headers (''id,x'' @ [CHR 0x0A] @ ''7,1''))))
   \<and> map_of (parseCSV (''id,x'' @ [CHR 0x0A] @ ''7,1'') ! 0) ''id''
       = Some (coerce (csv_cells (csv_body (''id,x'' @ [CHR 0x0A] @ ''7,1'') ! 0) ! 0))
   \<and> coerce (csv_cells (csv_body (''id,x'' @ [CHR 0x0A] @ ''7,1'') ! 0) ! 0) = JNumber (Finite 7)"
proof -
  let ?csv = "''a,b'' @ [CHR 0x0A] @ ''1''"
  let ?csv2 = "''id,x'' @ [CHR 0x0A] @ ''7,1''"
  have r: "0 < length (csv_body ?csv)"
    by code_simp
  have b: "''b'' \<notin> set (take (length (csv_cells (csv_body ?csv ! 0))) (csv_headers ?csv))"
    by code_simp
  have i: "''id'' \<notin> set (take (length (csv_cells (csv_body ?csv ! 0))) (csv_headers ?csv))"
    by code_simp
  have n: "''b'' \<noteq> ''id''" by simp
  have first: "map_of (parseCSV ?csv ! 0) ''b'' = None
      \<and> map_of (parseCSV ?csv ! 0) ''id'' = Some (JNumber (Finite (of_nat 0)))"
    using parseCSV_row_fields[OF r] b i n by blast
  have r2: "0 < length (csv_body ?csv2)" by code_simp
  have h2: "0 < length (csv_headers ?csv2)" by code_simp
  have c2: "0 < length (csv_cells (csv_body ?csv2 ! 0))" by code_simp
  have d2: "csv_headers ?csv2 ! 0 = ''id''" by code_simp
  have l2: "''id'' \<notin> set (drop (Suc 0)
              (take (length (csv_cells (csv_body ?csv2 ! 0))) (csv_headers ?csv2)))"
    by code_simp
  have v2: "coerce (csv_cells (csv_body ?csv2 ! 0) ! 0) = JNumber (Finite 7)" by code_simp
  have second: "map_of (parseCSV ?csv2 ! 0) ''id''
      = Some (coerce (csv_cells (csv_body ?csv2 ! 0) ! 0))"
    using parseCSV_row_fields[OF r2] h2 c2 d2 l2 by blast
  from r b i n first r2 h2 c2 d2 l2 second v2 show ?thesis by simp
qed

text \<open>
  The claim as the specification words it fails on a text with a column named \<open>id\<close>:
  for \<^verbatim>\<open>id\<close>, newline, \<^verbatim>\<open>7\<close> the row of index 0 has the identifier 7.
\<close>

theorem parseCSV_id_counterexample:
  "0 < length (parseCSV (''id'' @ [CHR 0x0A] @ ''7''))
   \<and> map_of (parseCSV (''id'' @ [CHR 0x0A] @ ''7'') ! 0) ''id'' = Some (JNumber (Finite 7))
   \<and> map_of (parseCSV (''id'' @ [CHR 0x0A] @ ''7'') ! 0) ''id'' \<noteq> Some (JNumber (Finite (of_nat 0)))"
  by code_simp

text \<open>
  Claim C10, as the code has it. The parser coerces an empty cell to the number 0, not to
  the empty string: for every data row \<open>r\<close> and every column \<open>i\<close> whose cell in that row
  is present and empty (nothing, or only white space, between its delimiters) and whose
  header is not \<^verbatim>\<open>__proto__\<close>, the parsed row stores the number 0 under the header of
  the column, unless a later column of the same name overwrites it: in \<^verbatim>\<open>parseCSV\<close> a
  later column that has a value in the row, in the reader of the prediction runner any
  later column.
\<close>

theorem empty_cell_is_zero:
  assumes "r < length (csv_body csv)"
      and "i < length (csv_headers csv)"
      and "i < length (csv_cells (csv_body csv ! r))"
      and "csv_cells (csv_body csv ! r) ! i = []"
      and "csv_headers csv ! i \<noteq> ''__proto__''"
  shows "(csv_headers csv ! i
            \<notin> set (drop (Suc i) (take (length (csv_cells (csv_body csv ! r))) (csv_headers csv)))
          \<longrightarrow> map_of (parseCSV csv ! r) (csv_headers csv ! i) = Some (JNumber (Finite 0)))
       \<and> (csv_headers csv ! i \<notin> set (drop (Suc i) (csv_headers csv))
          \<longrightarrow> map_of (parse_test_data (StringContent csv) ! r) (csv_headers csv ! i)
                = Some (JNumber (Finite 0)))"
proof (intro conjI impI)
  assume "csv_headers csv ! i
            \<notin> set (drop (Suc i) (take (length (csv_cells (csv_body csv ! r))) (csv_headers csv)))"
  with assms(2,3,5)
  have "map_of (parse_row (csv_headers csv) (csv_body csv ! r) r) (csv_headers csv ! i)
        = Some (coerce (csv_cells (csv_body csv ! r) ! i))"
    by (rule parse_row_cell)
  then show "map_of (parseCSV csv ! r) (csv_headers csv ! i) = Some (JNumber (Finite 0))"
    using assms(1,4) by (simp add: parseCSV_nth coerce_empty)
next
  assume "csv_headers csv ! i \<notin> set (drop (Suc i) (csv_headers csv))"
  with assms(2,3,4,5)
  have "map_of (test_row (csv_headers csv) (csv_body csv ! r) r) (csv_headers csv ! i)
        = Some (JNumber (Finite 0))"
    by (rule test_row_empty_cell)
  then show "map_of (parse_test_data (StringContent csv) ! r) (csv_headers csv ! i)
             = Some (JNumber (Finite 0))"
    using assms(1) by (simp add: parse_test_data_nth)
qed

text \<open>The text \<^verbatim>\<open>a,b\<close>, newline, \<^verbatim>\<open>,x\<close>: the cell of column \<open>a\<close> is empty.\<close>

theorem empty_cell_is_zero_witness:
  "0 < length (csv_body (''a,b'' @ [CHR 0x0A] @ '',x''))
   \<and> 0 < length (csv_headers (''a,b'' @ [CHR 0x0A] @ '',x''))
   \<and> 0 < length (csv_cells (csv_body (''a,b'' @ [CHR 0x0A] @ '',x'') ! 0))
   \<and> csv_cells (csv_body (''a,b'' @ [CHR 0x0A] @ '',x'') ! 0) ! 0 = []
   \<and> csv_headers (''a,b'' @ [CHR 0x0A] @ '',x'') ! 0 \<noteq> ''__proto__''
   \<and> csv_headers (''a,b'' @ [CHR 0x0A] @ '',x'') ! 0
       \<notin> set (drop (Suc 0)
                (take (length (csv_cells (csv_body (''a,b'' @ [CHR 0x0A] @ '',x'') ! 0)))
                   (csv_headers (''a,b'' @ [CHR 0x0A] @ '',x''))))
   \<and> csv_headers (''a,b'' @ [CHR 0x0A] @ '',x'') ! 0
       \<notin> set (drop (Suc 0) (csv_headers (''a,b'' @ [CHR 0x0A] @ '',x'')))
   \<and> map_of (parseCSV (''a,b'' @ [CHR 0x0A] @ '',x'') ! 0)
       (csv_headers (''a,b'' @ [CHR 0x0A] @ '',x'') ! 0) = Some (JNumber (Finite 0))
   \<and> map_of (parse_test_data (StringContent (''a,b'' @ [CHR 0x0A] @ '',x'')) ! 0)
       (csv_headers (''a,b'' @ [CHR 0x0A] @ '',x'') ! 0) = Some (JNumber (Finite 0))"
proof -
  let ?csv = "''a,b'' @ [CHR 0x0A] @ '',x''"
  have h1: "0 < length (csv_body ?csv)" by code_simp
  have h2: "0 < length (csv_headers ?csv)" by code_simp
  have h3: "0 < length (csv_cells (csv_body ?csv ! 0))" by code_simp
  have h4: "csv_cells (csv_body ?csv ! 0) ! 0 = []" by code_simp
  have h5: "csv_headers ?csv ! 0 \<noteq> ''__proto__''" by code_simp
  have h6: "csv_headers ?csv ! 0
      \<notin> set (drop (Suc 0) (take (length (csv_cells (csv_body ?csv ! 0))) (csv_headers ?csv)))"
    by code_simp
  have h7: "csv_headers ?csv ! 0 \<notin> set (drop (Suc 0) (csv_headers ?csv))" by code_simp
  from empty_cell_is_zero[OF h1 h2 h3 h4 h5] h1 h2 h3 h4 h5 h6 h7 show ?thesis by blast
qed

text \<open>
  The claim as it is worded fails on a text with two columns of one name: for
  \<^verbatim>\<open>a,a\<close>, newline, \<^verbatim>\<open>,x\<close> the first cell of the row is present and empty, and the
  row stores the text \<^verbatim>\<open>x\<close> of the second column under \<open>a\<close>, in both readers. It
  also fails for a header \<^verbatim>\<open>__proto__\<close>: for \<^verbatim>\<open>a,__proto__\<close>, newline, \<^verbatim>\<open>1,\<close> the
  second cell is present and empty and nothing is stored under its header.
\<close>

theorem empty_cell_counterexample:
  "0 < length (csv_cells (csv_body (''a,a'' @ [CHR 0x0A] @ '',x'') ! 0))
   \<and> csv_headers (''a,a'' @ [CHR 0x0A] @ '',x'') ! 0 = ''a''
   \<and> csv_cells (csv_body (''a,a'' @ [CHR 0x0A] @ '',x'') ! 0) ! 0 = []
   \<and> map_of (parseCSV (''a,a'' @ [CHR 0x0A] @ '',x'') ! 0) ''a'' = Some (JString ''x'')
   \<and> map_of (parse_test_data (StringContent (''a,a'' @ [CHR 0x0A] @ '',x'')) ! 0) ''a''
       = Some (JString ''x'')
   \<and> 1 < length (csv_cells (csv_body (''a,__proto__'' @ [CHR 0x0A] @ ''1,'') ! 0))
   \<and> csv_headers (''a,__proto__'' @ [CHR 0x0A] @ ''1,'') ! 1 = ''__proto__''
   \<and> csv_cells (csv_body (''a,__proto__'' @ [CHR 0x0A] @ ''1,'') ! 0) ! 1 = []
   \<and> map_of (parseCSV (''a,__proto__'' @ [CHR 0x0A] @ ''1,'') ! 0) ''__proto__'' = None
   \<and> map_of (parse_test_data (StringContent (''a,__proto__'' @ [CHR 0x0A] @ ''1,'')) ! 0)
        ''__proto__'' = None"
  by code_simp

section \<open>Task-type inference\<close>

lemma foldl_scan_row:
  "distinct (fst acc) \<Longrightarrow>
   distinct (fst (foldl (scan_row t) acc rows))
   \<and> set (fst (foldl (scan_row t) acc rows)) = set (fst acc) \<union> (\<lambda>r. get_prop r t) ` set rows
   \<and> snd (foldl (scan_row t) acc rows)
       = snd acc + length (filter (\<lambda>r. typeof_number (get_prop r t)) rows)"
proof (induction rows arbitrary: acc)
  case Nil
  then show ?case by simp
next
  case (Cons r rows)
  have d: "distinct (fst (scan_row t acc r))"
    using Cons.prems by (simp add: scan_row_def set_add_def Let_def)
  have s: "set (fst (scan_row t acc r)) = insert (get_prop r t) (set (fst acc))"
    by (auto simp: scan_row_def set_add_def Let_def)
  have c: "snd (scan_row t acc r) = snd acc + (if typeof_number (get_prop r t) then 1 else 0)"
    by (simp add: scan_row_def Let_def)
  from Cons.IH[OF d] show ?case
    by (simp add: s c)
qed

text \<open>What the loop leaves in \<^verbatim>\<open>uniqueValues\<close> and \<^verbatim>\<open>numericCount\<close>.\<close>

lemma scan_rows:
  "foldl (scan_row t) ([], 0) rows = (u, k) \<Longrightarrow>
   length u = card ((\<lambda>r. get_prop r t) ` set rows)
   \<and> k = length (filter (\<lambda>r. typeof_number (get_prop r t)) rows)"
proof -
  assume f: "foldl (scan_row t) ([], 0) rows = (u, k)"
  from foldl_scan_row[of "([], 0)" t rows] f
  have d: "distinct u" and s: "set u = (\<lambda>r. get_prop r t) ` set rows"
    and c: "k = length (filter (\<lambda>r. typeof_number (get_prop r t)) rows)"
    by simp_all
  from distinct_card[OF d] s have "length u = card ((\<lambda>r. get_prop r t) ` set rows)"
    by simp
  with c show ?thesis by simp
qed

text \<open>
  Claim C3. For every data set with at least one row and every target column name (a
  name is a non-empty string: the empty string is how this code writes "no target"),
  with \<open>u\<close> the number of distinct values of the target column, \<open>n\<close> the number of
  rows and \<open>numeric\<close> the number of rows whose target value is a number:
  \<^verbatim>\<open>determineTaskType\<close> answers classification if \<open>u \<le> 10\<close> or \<open>u / n < 0.05\<close>,
  otherwise regression if \<open>numeric / n > 0.9\<close>, otherwise classification.
\<close>

theorem determineTaskType_heuristic:
  assumes "rows \<noteq> []" and "targetName \<noteq> []"
  shows "determineTaskType targetName (Some rows) =
     (let u = card ((\<lambda>r. get_prop r targetName) ` set rows);
          n = length rows;
          numeric = length (filter (\<lambda>r. typeof_number (get_prop r targetName)) rows)
      in if u \<le> 10 \<or> (of_nat u / of_nat n :: rat) < 5 / 100 then Some classification
         else if (of_nat numeric / of_nat n :: rat) > 9 / 10 then Some regression
         else Some classification)"
proof -
  obtain u k where f: "foldl (scan_row targetName) ([], 0) rows = (u, k)"
    by (cases "foldl (scan_row targetName) ([], 0) rows")
  from scan_rows[OF f] show ?thesis
    using assms by (simp add: determineTaskType_def f Let_def)
qed

text \<open>Eleven rows with the target values 0 to 10, all numbers: a regression task.\<close>

theorem determineTaskType_heuristic_witness:
  "map (\<lambda>i. [(''y'', JNumber (Finite (of_nat i)))]) [0 ..< 11] \<noteq> []
   \<and> ''y'' \<noteq> []
   \<and> determineTaskType ''y'' (Some (map (\<lambda>i. [(''y'', JNumber (Finite (of_nat i)))]) [0 ..< 11]))
       = Some regression"
  using determineTaskType_heuristic
          [of "map (\<lambda>i. [(''y'', JNumber (Finite (of_nat i)))]) [0 ..< 11]" "''y''"]
  by (simp add: Let_def get_prop_def typeof_number_def upt_rec)

section \<open>The workflow: navigation and loading a data set\<close>

text \<open>
  Claim C4. For every state of the page, the request to enter the train step sets the
  current step to \<open>train\<close> when at least one feature is selected and a target is set, and
  nothing else changes; when the guard fails the request returns the state as it was
  (a no-op, no error). So from another step the current step becomes \<open>train\<close> if and
  only if the guard holds.
\<close>

theorem navigateToStep_train:
  "(selectedFeatures st \<noteq> [] \<and> selectedTarget st \<noteq> []
      \<longrightarrow> navigateToStep train st = st\<lparr>currentStep := train\<rparr>)
   \<and> (\<not> (selectedFeatures st \<noteq> [] \<and> selectedTarget st \<noteq> [])
      \<longrightarrow> navigateToStep train st = st)
   \<and> (currentStep st \<noteq> train
      \<longrightarrow> (currentStep (navigateToStep train st) = train
           \<longleftrightarrow> selectedFeatures st \<noteq> [] \<and> selectedTarget st \<noteq> []))"
  by (simp add: navigateToStep_def)

text \<open>
  Both branches at the select step: with the feature \<open>x\<close> and the target \<open>y\<close> the step
  becomes \<open>train\<close>; with the feature \<open>x\<close> and no target the state is unchanged.
\<close>

theorem navigateToStep_train_witness:
  "selectedFeatures ((initial_state :: nat index_state)
      \<lparr>currentStep := select, selectedFeatures := [''x''], selectedTarget := ''y''\<rparr>) \<noteq> []
   \<and> selectedTarget ((initial_state :: nat index_state)
      \<lparr>currentStep := select, selectedFeatures := [''x''], selectedTarget := ''y''\<rparr>) \<noteq> []
   \<and> currentStep ((initial_state :: nat index_state)
      \<lparr>currentStep := select, selectedFeatures := [''x''], selectedTarget := ''y''\<rparr>) \<noteq> train
   \<and> currentStep (navigateToStep train ((initial_state :: nat index_state)
      \<lparr>currentStep := select, selectedFeatures := [''x''], selectedTarget := ''y''\<rparr>)) = train
   \<and> \<not> (selectedFeatures ((initial_state :: nat index_state)
            \<lparr>currentStep := select, selectedFeatures := [''x'']\<rparr>) \<noteq> []
        \<and> selectedTarget ((initial_state :: nat index_state)
            \<lparr>currentStep := select, selectedFeatures := [''x'']\<rparr>) \<noteq> [])
   \<and> navigateToStep train ((initial_state :: nat index_state)
        \<lparr>currentStep := select, selectedFeatures := [''x'']\<rparr>)
       = (initial_state :: nat index_state)\<lparr>currentStep := select, selectedFeatures := [''x'']\<rparr>"
  using navigateToStep_train[of "(initial_state :: nat index_state)
          \<lparr>currentStep := select, selectedFeatures := [''x''], selectedTarget := ''y''\<rparr>"]
        navigateToStep_train[of "(initial_state :: nat index_state)
          \<lparr>currentStep := select, selectedFeatures := [''x'']\<rparr>"]
  by (simp add: initial_state_def)

text \<open>
  Claim C2, as the code has it. For every state of the page and every uploaded text,
  loading the data set replaces the data set with the rows parsed from the text and clears
  the feature selection, the target selection and the task type. It leaves the trained
  models, the metrics, the feature importances, the predictions, the per-model results,
  the selected models with their parameters and the current step as they were.
\<close>

theorem handleFileUploaded_effect:
  "data (handleFileUploaded (StringContent s) st) = Some (parseCSV s)
   \<and> selectedFeatures (handleFileUploaded (StringContent s) st) = []
   \<and> selectedTarget (handleFileUploaded (StringContent s) st) = []
   \<and> taskType (handleFileUploaded (StringContent s) st) = None
   \<and> trainedModel (handleFileUploaded (StringContent s) st) = trainedModel st
   \<and> modelMetrics (handleFileUploaded (StringContent s) st) = modelMetrics st
   \<and> featureImportance (handleFileUploaded (StringContent s) st) = featureImportance st
   \<and> predictions (handleFileUploaded (StringContent s) st) = predictions st
   \<and> modelResults (handleFileUploaded (StringContent s) st) = modelResults st
   \<and> selectedModels (handleFileUploaded (StringContent s) st) = selectedModels st
   \<and> multiModelParams (handleFileUploaded (StringContent s) st) = multiModelParams st
   \<and> currentStep (handleFileUploaded (StringContent s) st) = currentStep st"
  by (simp add: handleFileUploaded_def)

text \<open>
  The claim as the specification words it fails after a training: a decision tree is
  selected and trained, then the text \<^verbatim>\<open>a\<close>, newline, \<^verbatim>\<open>1\<close> is loaded. The result
  of the decision tree and the trained model are still there.
\<close>

theorem handleFileUploaded_counterexample:
  "modelResults (handleFileUploaded (StringContent (''a'' @ [CHR 0x0A] @ ''1''))
      (handleTrainingCompleteMulti (0::nat) decision_tree
         (handleModelsSelect [decision_tree] (initial_state\<lparr>currentStep := train\<rparr>))))
     = [(decision_tree, 0)]
   \<and> trainedModel (handleFileUploaded (StringContent (''a'' @ [CHR 0x0A] @ ''1''))
      (handleTrainingCompleteMulti (0::nat) decision_tree
         (handleModelsSelect [decision_tree] (initial_state\<lparr>currentStep := train\<rparr>))))
     \<noteq> None"
  by (simp add: handleFileUploaded_def handleTrainingCompleteMulti_def handleModelsSelect_def
      initial_state_def Let_def)

section \<open>Selecting features and the target\<close>

text \<open>The two click handlers, wired to the page as in the select step.\<close>

lemma setTarget_eq:
  "setTarget c st =
     (if c = selectedTarget st then handleTargetSelected [] st
      else handleTargetSelected c
             (if c \<in> set (selectedFeatures st)
              then handleFeaturesSelected (filter (\<lambda>f. f \<noteq> c) (selectedFeatures st)) st
              else st))"
  by (simp add: setTarget_def handleTargetClick_def select_step_props_def)

lemma toggleFeature_eq:
  "toggleFeature c st =
     (if c = selectedTarget st then st
      else if c \<in> set (selectedFeatures st)
      then handleFeaturesSelected (filter (\<lambda>f. f \<noteq> c) (selectedFeatures st)) st
      else handleFeaturesSelected (selectedFeatures st @ [c]) st)"
  by (simp add: toggleFeature_def handleFeatureClick_def select_step_props_def)

lemma handleTargetSelected_fields:
  "selectedTarget (handleTargetSelected t st) = t"
  "selectedFeatures (handleTargetSelected t st) = selectedFeatures st"
  by (simp_all add: handleTargetSelected_def)

lemma handleFeaturesSelected_fields:
  "selectedTarget (handleFeaturesSelected fs st) = selectedTarget st"
  "selectedFeatures (handleFeaturesSelected fs st) = fs"
  by (simp_all add: handleFeaturesSelected_def)

lemma filter_absent: "c \<notin> set xs \<Longrightarrow> filter (\<lambda>f. f \<noteq> c) xs = xs"
  by (induction xs) auto

lemma setTarget_fields:
  "selectedTarget (setTarget c st) = (if c = selectedTarget st then [] else c)"
  "selectedFeatures (setTarget c st) =
     (if c = selectedTarget st then selectedFeatures st
      else filter (\<lambda>f. f \<noteq> c) (selectedFeatures st))"
  by (simp_all add: setTarget_eq handleTargetSelected_fields handleFeaturesSelected_fields
      filter_absent)

lemma toggleFeature_fields:
  "selectedTarget (toggleFeature c st) = selectedTarget st"
  "selectedFeatures (toggleFeature c st) =
     (if c = selectedTarget st then selectedFeatures st
      else if c \<in> set (selectedFeatures st) then filter (\<lambda>f. f \<noteq> c) (selectedFeatures st)
      else selectedFeatures st @ [c])"
  by (simp_all add: toggleFeature_eq handleFeaturesSelected_fields)

text \<open>
  Claim C5. The selection operations preserve the invariant that a target that is set is
  not a member of the feature set. For every prior feature set, selecting a column other
  than the current target as target makes it the target and removes it from the features
  (the other features stay, in their order); and toggling as a feature the column that is
  the current target is rejected: the state is unchanged.
\<close>

theorem selection_keeps_target_out_of_features:
  "(target_not_feature st \<longrightarrow> target_not_feature (setTarget c st))
   \<and> (target_not_feature st \<longrightarrow> target_not_feature (toggleFeature c st))
   \<and> (c \<noteq> selectedTarget st \<longrightarrow>
        selectedTarget (setTarget c st) = c
        \<and> selectedFeatures (setTarget c st) = filter (\<lambda>f. f \<noteq> c) (selectedFeatures st)
        \<and> c \<notin> set (selectedFeatures (setTarget c st)))
   \<and> toggleFeature (selectedTarget st) st = st"
proof -
  have a: "target_not_feature (setTarget c st)"
    by (simp add: target_not_feature_def setTarget_fields)
  have b: "target_not_feature (toggleFeature c st)" if "target_not_feature st"
    using that by (auto simp: target_not_feature_def toggleFeature_fields)
  have d: "toggleFeature (selectedTarget st) st = st"
    by (simp add: toggleFeature_eq)
  show ?thesis
    using a b d by (simp add: setTarget_fields)
qed

text \<open>
  The features \<open>x\<close> and \<open>y\<close> with the target \<open>z\<close>: selecting \<open>y\<close> as target leaves the
  feature \<open>x\<close>, and toggling \<open>z\<close> as a feature changes nothing.
\<close>

theorem selection_keeps_target_out_of_features_witness:
  "target_not_feature ((initial_state :: nat index_state)
      \<lparr>selectedFeatures := [''x'', ''y''], selectedTarget := ''z''\<rparr>)
   \<and> ''y'' \<noteq> selectedTarget ((initial_state :: nat index_state)
      \<lparr>selectedFeatures := [''x'', ''y''], selectedTarget := ''z''\<rparr>)
   \<and> target_not_feature (setTarget ''y'' ((initial_state :: nat index_state)
      \<lparr>selectedFeatures := [''x'', ''y''], selectedTarget := ''z''\<rparr>))
   \<and> target_not_feature (toggleFeature ''y'' ((initial_state :: nat index_state)
      \<lparr>selectedFeatures := [''x'', ''y''], selectedTarget := ''z''\<rparr>))
   \<and> selectedTarget (setTarget ''y'' ((initial_state :: nat index_state)
      \<lparr>selectedFeatures := [''x'', ''y''], selectedTarget := ''z''\<rparr>)) = ''y''
   \<and> selectedFeatures (setTarget ''y'' ((initial_state :: nat index_state)
      \<lparr>selectedFeatures := [''x'', ''y''], selectedTarget := ''z''\<rparr>)) = [''x'']"
proof -
  let ?st = "(initial_state :: nat index_state)
      \<lparr>selectedFeatures := [''x'', ''y''], selectedTarget := ''z''\<rparr>"
  have inv: "target_not_feature ?st"
    by (simp add: target_not_feature_def)
  have other: "''y'' \<noteq> selectedTarget ?st"
    by simp
  have kept: "filter (\<lambda>f. f \<noteq> ''y'') (selectedFeatures ?st) = [''x'']"
    by simp
  from selection_keeps_target_out_of_features[of ?st "''y''"] inv other kept
  show ?thesis by simp
qed

text \<open>
  Claim C6. Target selection is a toggle round trip: for every column name \<open>c\<close>, from a
  state with no target, selecting \<open>c\<close> as target makes \<open>c\<close> the target (for a name that
  is not empty; the empty name is the unset target), and selecting \<open>c\<close> as target again
  returns the target to unset, the original empty target. More generally, in every state
  a target click on the column that is the current target clears the target.
\<close>

theorem setTarget_twice:
  "(selectedTarget st = [] \<longrightarrow>
      selectedTarget (setTarget c st) = c
      \<and> selectedTarget (setTarget c (setTarget c st)) = [])
   \<and> (selectedTarget st = c \<longrightarrow> selectedTarget (setTarget c st) = [])"
  by (auto simp: setTarget_fields)

text \<open>
  From the initial state, a first click on the column \<open>y\<close> selects it and a second click
  clears the target.
\<close>

theorem setTarget_twice_witness:
  "selectedTarget (initial_state :: nat index_state) = []
   \<and> selectedTarget (setTarget ''y'' (initial_state :: nat index_state)) = ''y''
   \<and> selectedTarget (setTarget ''y'' (setTarget ''y'' (initial_state :: nat index_state))) = []"
proof -
  have unset: "selectedTarget (initial_state :: nat index_state) = []"
    by (simp add: initial_state_def)
  from setTarget_twice[of "initial_state :: nat index_state" "''y''"] unset
  have first: "selectedTarget (setTarget ''y'' (initial_state :: nat index_state)) = ''y''"
    and twice: "selectedTarget (setTarget ''y'' (setTarget ''y'' (initial_state :: nat index_state))) = []"
    by blast+
  from setTarget_twice[of "setTarget ''y'' (initial_state :: nat index_state)" "''y''"] first
  have again: "selectedTarget (setTarget ''y'' (setTarget ''y'' (initial_state :: nat index_state))) = []"
    by blast
  from unset first twice again show ?thesis by simp
qed

section \<open>Recording training results\<close>

lemma length_alist_update:
  "length (AList.update k v al) = (if k \<in> fst ` set al then length al else Suc (length al))"
  by (induction al) auto

lemma count_key_update:
  "distinct (map fst al) \<Longrightarrow> length (filter (\<lambda>e. fst e = k) (AList.update k v al)) = 1"
proof (induction al)
  case Nil
  then show ?case by simp
next
  case (Cons p al)
  show ?case
  proof (cases "fst p = k")
    case True
    with Cons.prems have "k \<notin> fst ` set al" by auto
    then have "filter (\<lambda>e. fst e = k) al = []" by (auto simp: filter_empty_conv)
    with True show ?thesis by simp
  next
    case False
    with Cons show ?thesis by simp
  qed
qed

lemma handleTrainingCompleteMulti_results:
  "modelResults (handleTrainingCompleteMulti r k st) = AList.update k r (modelResults st)"
  by (simp add: handleTrainingCompleteMulti_def Let_def)

lemma handleTrainingCompleteMulti_selected:
  "selectedModels (handleTrainingCompleteMulti r k st) = selectedModels st"
  by (simp add: handleTrainingCompleteMulti_def Let_def)

lemma handleTrainingCompleteMulti_step:
  "currentStep (handleTrainingCompleteMulti r k st) =
     (if length (modelResults st) + 1 = length (selectedModels st) then evaluate
      else currentStep st)"
  by (simp add: handleTrainingCompleteMulti_def Let_def)

text \<open>
  Claim C7. Recording a result is an overwrite keyed by the kind of model: for every kind
  \<open>k\<close> and results \<open>r1\<close>, \<open>r2\<close>, after the result \<open>r1\<close> and then the result \<open>r2\<close> are
  reported for \<open>k\<close>, the aggregator holds exactly one entry for \<open>k\<close>, that entry holds
  \<open>r2\<close>, the second report did not change the number of entries, and the aggregator is
  the one a single report of \<open>r2\<close> would have left. The aggregator is an object: its keys
  are distinct.
\<close>

theorem completeTraining_overwrites:
  assumes "distinct (map fst (modelResults st))"
  shows "map_of (modelResults (handleTrainingCompleteMulti r2 k (handleTrainingCompleteMulti r1 k st))) k
           = Some r2
       \<and> length (filter (\<lambda>e. fst e = k)
           (modelResults (handleTrainingCompleteMulti r2 k (handleTrainingCompleteMulti r1 k st)))) = 1
       \<and> length (modelResults (handleTrainingCompleteMulti r2 k (handleTrainingCompleteMulti r1 k st)))
           = length (modelResults (handleTrainingCompleteMulti r1 k st))
       \<and> modelResults (handleTrainingCompleteMulti r2 k (handleTrainingCompleteMulti r1 k st))
           = modelResults (handleTrainingCompleteMulti r2 k st)"
proof -
  let ?m1 = "AList.update k r1 (modelResults st)"
  have d1: "distinct (map fst ?m1)"
    using assms by (simp add: distinct_update)
  have "k \<in> fst ` set ?m1" by (simp add: dom_update)
  then have "length (AList.update k r2 ?m1) = length ?m1"
    by (simp add: length_alist_update)
  moreover have "map_of (AList.update k r2 ?m1) k = Some r2"
    by (simp add: update_conv')
  moreover have "length (filter (\<lambda>e. fst e = k) (AList.update k r2 ?m1)) = 1"
    using d1 by (rule count_key_update)
  ultimately show ?thesis
    by (simp add: handleTrainingCompleteMulti_results)
qed

theorem completeTraining_overwrites_witness:
  "distinct (map fst (modelResults (initial_state :: nat index_state)))
   \<and> map_of (modelResults (handleTrainingCompleteMulti 2 decision_tree
        (handleTrainingCompleteMulti 1 decision_tree (initial_state :: nat index_state))))
        decision_tree = Some 2
   \<and> length (modelResults (handleTrainingCompleteMulti 2 decision_tree
        (handleTrainingCompleteMulti 1 decision_tree (initial_state :: nat index_state))))
       = length (modelResults
           (handleTrainingCompleteMulti 1 decision_tree (initial_state :: nat index_state)))"
proof -
  have d: "distinct (map fst (modelResults (initial_state :: nat index_state)))"
    by (simp add: initial_state_def)
  from completeTraining_overwrites[OF d, of 2 decision_tree 1] d show ?thesis
    by blast
qed

text \<open>
  Claim C1. The page is to advance to the evaluate step exactly when every selected model
  has a recorded result. The handler compares the number of results recorded before the
  report, plus one, with the number of selected models; a second report for a kind that
  already has a result is counted like a first one. With the decision tree and the random
  forest selected and nothing trained yet, two reports for the decision tree put the page
  in the evaluate step: the random forest has no result, and the aggregator holds one
  entry for two selected models.
\<close>

theorem retraining_advances_early:
  "currentStep (handleTrainingCompleteMulti r2 decision_tree
      (handleTrainingCompleteMulti r1 decision_tree
         (handleModelsSelect [decision_tree, random_forest]
            (initial_state\<lparr>currentStep := train\<rparr>)))) = evaluate
   \<and> currentStep (handleTrainingCompleteMulti r1 decision_tree
         (handleModelsSelect [decision_tree, random_forest]
            (initial_state\<lparr>currentStep := train\<rparr>))) = train
   \<and> map_of (modelResults (handleTrainingCompleteMulti r2 decision_tree
      (handleTrainingCompleteMulti r1 decision_tree
         (handleModelsSelect [decision_tree, random_forest]
            (initial_state\<lparr>currentStep := train\<rparr>))))) random_forest = None
   \<and> length (modelResults (handleTrainingCompleteMulti r2 decision_tree
      (handleTrainingCompleteMulti r1 decision_tree
         (handleModelsSelect [decision_tree, random_forest]
            (initial_state\<lparr>currentStep := train\<rparr>))))) = 1
   \<and> selectedModels (handleTrainingCompleteMulti r2 decision_tree
      (handleTrainingCompleteMulti r1 decision_tree
         (handleModelsSelect [decision_tree, random_forest]
            (initial_state\<lparr>currentStep := train\<rparr>)))) = [decision_tree, random_forest]"
  by (simp add: handleTrainingCompleteMulti_def handleModelsSelect_def initial_state_def Let_def)

section \<open>The prediction runner\<close>










end
